theory Spec2Isabelle
  imports Complex_Main "HOL-Library.Word"
begin

section \<open>The audio codec of src/lib/audioCodec.ts\<close>

text \<open>
  The codec sends a text as a sequence of tones, one per UTF-16 code unit, framed by a
  start and an end marker tone, and decodes the dominant frequency of each analysis tick
  with a small state machine.

  Numbers: a JavaScript string is a sequence of 16-bit code units, so a character is a
  \<open>16 word\<close>; \<open>charCodeAt(0)\<close> reads it as an unsigned integer and
  \<open>String.fromCharCode\<close> reduces its integer argument modulo \<open>2 ^ 16\<close>. Frequencies are
  modelled as exact rationals: every value the program computes from a character
  (\<open>2000 + 150 * code\<close>) and every dominant frequency \<open>maxIndex * sampleRate / 4096\<close> is a
  dyadic rational of small size that a double holds exactly. \<open>Math.round\<close> rounds halves
  upwards, as \<open>round\<close> does. \<open>Date.now()\<close> is an integer number of milliseconds; the
  product \<open>CHAR_DURATION * 1000 * 0.8\<close> is exactly 40 in doubles as it is in the rationals.
\<close>

subsection \<open>Constants\<close>

definition SAMPLE_RATE :: rat where
  "SAMPLE_RATE = 48000"

definition CHAR_DURATION :: rat where
  "CHAR_DURATION = 5 / 100"

definition BASE_FREQUENCY :: rat where
  "BASE_FREQUENCY = 2000"

definition FREQUENCY_STEP :: rat where
  "FREQUENCY_STEP = 150"

definition START_MARKER_FREQ :: rat where
  "START_MARKER_FREQ = 1800"

definition END_MARKER_FREQ :: rat where
  "END_MARKER_FREQ = 1600"

definition SIGNAL_THRESHOLD :: nat where
  "SIGNAL_THRESHOLD = 150"

definition FREQUENCY_TOLERANCE :: rat where
  "FREQUENCY_TOLERANCE = 40"

text \<open>\<open>analyser.fftSize = 4096\<close>, set in \<open>startListening\<close>.\<close>

definition fftSize :: rat where
  "fftSize = 4096"

subsection \<open>Strings and characters\<close>

type_synonym code_unit = "16 word"

type_synonym jsstring = "code_unit list"

text \<open>\<open>char.charCodeAt(0)\<close> on a one-character string.\<close>

definition charCodeAt0 :: "code_unit \<Rightarrow> int" where
  "charCodeAt0 char = uint char"

text \<open>\<open>String.fromCharCode(n)\<close> for an integer \<open>n\<close>: the code unit \<open>n mod 2 ^ 16\<close>.\<close>

definition fromCharCode :: "int \<Rightarrow> code_unit" where
  "fromCharCode n = word_of_int n"

subsection \<open>The frequency mapping\<close>

definition charToFrequency :: "code_unit \<Rightarrow> rat" where
  "charToFrequency char = BASE_FREQUENCY + (of_int (charCodeAt0 char) * FREQUENCY_STEP)"

text \<open>The local constant \<open>charCode\<close> of \<open>frequencyToChar\<close>.\<close>

definition charCodeOf :: "rat \<Rightarrow> int" where
  "charCodeOf frequency = round ((frequency - BASE_FREQUENCY) / FREQUENCY_STEP)"

definition frequencyToChar :: "rat \<Rightarrow> code_unit" where
  "frequencyToChar frequency = (let charCode = charCodeOf frequency in fromCharCode charCode)"

subsection \<open>The transmitter\<close>

text \<open>
  \<open>encodeText\<close> renders and then plays, one after the other, the start marker, one tone
  per code unit of the text, and the end marker. A tone is modelled by the two arguments
  of \<open>generateTone\<close>, its frequency and its duration; the sample buffer (a sine) is not.
\<close>

type_synonym tone = "rat \<times> rat"

definition encodeText :: "jsstring \<Rightarrow> tone list" where
  "encodeText text =
     (let startMarker = (START_MARKER_FREQ, CHAR_DURATION);
          tones = map (\<lambda>char. (charToFrequency char, CHAR_DURATION)) text;
          endMarker = (END_MARKER_FREQ, CHAR_DURATION)
      in [startMarker] @ tones @ [endMarker])"

subsection \<open>The receiver\<close>

text \<open>The four variables that the closure \<open>analyze\<close> captures and updates.\<close>

record ReceiverState =
  isReceiving :: bool
  receivedText :: jsstring
  lastFrequency :: rat
  lastFrequencyTime :: int

text \<open>Their values when \<open>startListening\<close> declares them; \<open>now0\<close> is \<open>Date.now()\<close> then.\<close>

definition startListening :: "int \<Rightarrow> ReceiverState" where
  "startListening now0 =
     \<lparr>isReceiving = False, receivedText = [], lastFrequency = 0, lastFrequencyTime = now0\<rparr>"

text \<open>
  The decision part of \<open>analyze\<close> (the \<open>if (maxValue > SIGNAL_THRESHOLD)\<close> statement),
  given the peak magnitude, the dominant frequency and the value \<open>Date.now()\<close> would
  return in this tick. The result is the updated state and the text passed to
  \<open>decoder$.next\<close>, if any.
\<close>

definition decode :: "nat \<Rightarrow> rat \<Rightarrow> int \<Rightarrow> ReceiverState \<Rightarrow> ReceiverState \<times> jsstring option" where
  "decode maxValue dominantFrequency now s =
     (if maxValue > SIGNAL_THRESHOLD then
        if \<bar>dominantFrequency - START_MARKER_FREQ\<bar> < FREQUENCY_TOLERANCE then
          (s\<lparr>isReceiving := True, receivedText := []\<rparr>, None)
        else if \<bar>dominantFrequency - END_MARKER_FREQ\<bar> < FREQUENCY_TOLERANCE then
          (s\<lparr>isReceiving := False\<rparr>,
           if receivedText s \<noteq> [] then Some (receivedText s) else None)
        else if isReceiving s \<and> \<bar>dominantFrequency - lastFrequency s\<bar> > FREQUENCY_TOLERANCE then
          if of_int (now - lastFrequencyTime s) > CHAR_DURATION * 1000 * (8 / 10) then
            (let char = frequencyToChar dominantFrequency in
             if charCodeAt0 char \<ge> 32 \<and> charCodeAt0 char \<le> 126 then
               (s\<lparr>receivedText := receivedText s @ [char],
                  lastFrequency := dominantFrequency,
                  lastFrequencyTime := now\<rparr>, None)
             else (s, None))
          else (s, None)
        else (s, None)
      else (s, None))"

text \<open>
  The peak search of \<open>analyze\<close> over the byte spectrum: the loop keeps the first index of
  the largest value, starting from \<open>maxValue = 0\<close>, \<open>maxIndex = 0\<close>.
\<close>

fun peak_loop :: "8 word list \<Rightarrow> nat \<Rightarrow> nat \<times> nat \<Rightarrow> nat \<times> nat" where
  "peak_loop [] i (maxValue, maxIndex) = (maxValue, maxIndex)"
| "peak_loop (d # dataArray) i (maxValue, maxIndex) =
     (if unat d > maxValue then peak_loop dataArray (Suc i) (unat d, i)
      else peak_loop dataArray (Suc i) (maxValue, maxIndex))"

definition analyze :: "rat \<Rightarrow> 8 word list \<Rightarrow> int \<Rightarrow> ReceiverState \<Rightarrow> ReceiverState \<times> jsstring option" where
  "analyze sampleRate dataArray now s =
     (let (maxValue, maxIndex) = peak_loop dataArray 0 (0, 0);
          dominantFrequency = (of_nat maxIndex * sampleRate) / fftSize
      in decode maxValue dominantFrequency now s)"

text \<open>The local constant \<open>dominantFrequency\<close> of \<open>analyze\<close>, as a function of its inputs.\<close>

definition dominantFrequencyOf :: "rat \<Rightarrow> 8 word list \<Rightarrow> rat" where
  "dominantFrequencyOf sampleRate dataArray =
     (of_nat (snd (peak_loop dataArray 0 (0, 0))) * sampleRate) / fftSize"

text \<open>
  A tick is the reading of one call of \<open>analyze\<close>: magnitude, dominant frequency, clock.
  \<open>run\<close> processes ticks in arrival order and collects the emitted texts in order.
\<close>

type_synonym tick = "nat \<times> rat \<times> int"

fun run :: "ReceiverState \<Rightarrow> tick list \<Rightarrow> ReceiverState \<times> jsstring list" where
  "run s [] = (s, [])"
| "run s ((m, f, t) # ticks) =
     (case decode m f t s of (s', e) \<Rightarrow>
        (case run s' ticks of (s'', es) \<Rightarrow>
           (s'', (case e of None \<Rightarrow> [] | Some x \<Rightarrow> [x]) @ es)))"

text \<open>
  The readings a receiver takes of a tone sequence: one tick per tone, with the
  magnitude and the clock value of that tick.
\<close>

definition readings :: "tone list \<Rightarrow> (nat \<times> int) list \<Rightarrow> tick list" where
  "readings tones obs = map (\<lambda>((f, d), (m, t)). (m, f, t)) (zip tones obs)"

section \<open>Basic facts\<close>

lemmas codec_consts =
  BASE_FREQUENCY_def FREQUENCY_STEP_def START_MARKER_FREQ_def END_MARKER_FREQ_def
  SIGNAL_THRESHOLD_def FREQUENCY_TOLERANCE_def CHAR_DURATION_def

lemma round_unsigned: "round (unsigned (c::16 word) :: rat) = uint c"
  by (metis of_int_uint round_of_int)

lemma charCodeOf_charToFrequency: "charCodeOf (charToFrequency c) = uint c"
  by (simp add: charCodeOf_def charToFrequency_def charCodeAt0_def codec_consts round_unsigned)

lemma frequencyToChar_charToFrequency: "frequencyToChar (charToFrequency c) = c"
  by (simp add: frequencyToChar_def charCodeOf_charToFrequency fromCharCode_def)

lemma charToFrequency_alt: "charToFrequency c = 2000 + 150 * rat_of_int (uint c)"
  by (simp add: charToFrequency_def charCodeAt0_def codec_consts)

lemma charToFrequency_ge: "2000 \<le> charToFrequency c"
  by (simp add: charToFrequency_alt del: of_int_uint)

lemma charToFrequency_apart:
  assumes "c \<noteq> c'"
  shows "\<bar>charToFrequency c - charToFrequency c'\<bar> \<ge> 150"
proof -
  have "uint c \<noteq> uint c'" using assms by (simp add: word_uint_eq_iff)
  then have "\<bar>uint c - uint c'\<bar> \<ge> 1" by linarith
  then have "rat_of_int \<bar>uint c - uint c'\<bar> \<ge> 1" by linarith
  then have "\<bar>rat_of_int (uint c) - rat_of_int (uint c')\<bar> \<ge> 1" by simp
  then show ?thesis
    unfolding charToFrequency_alt by linarith
qed

lemma uint_frequencyToChar: "uint (frequencyToChar f) = charCodeOf f mod 65536"
  by (simp add: frequencyToChar_def fromCharCode_def uint_word_of_int)

lemma charCodeOf_ge_iff: "k \<le> charCodeOf f \<longleftrightarrow> 2000 + 150 * (rat_of_int k - 1/2) \<le> f"
  unfolding charCodeOf_def round_def le_floor_iff codec_consts
  by (auto simp add: field_simps)

lemma charCodeOf_le_iff: "charCodeOf f \<le> k \<longleftrightarrow> f < 2000 + 150 * (rat_of_int k + 1/2)"
  unfolding charCodeOf_def round_def floor_le_iff codec_consts
  by (auto simp add: field_simps)

lemma decode_quiet: "m \<le> 150 \<Longrightarrow> decode m f t s = (s, None)"
  by (simp add: decode_def codec_consts)

lemma decode_start:
  "150 < m \<Longrightarrow> \<bar>f - 1800\<bar> < 40 \<Longrightarrow> decode m f t s = (s\<lparr>isReceiving := True, receivedText := []\<rparr>, None)"
  by (simp add: decode_def codec_consts)

lemma decode_end:
  "150 < m \<Longrightarrow> \<bar>f - 1600\<bar> < 40 \<Longrightarrow>
   decode m f t s = (s\<lparr>isReceiving := False\<rparr>, if receivedText s \<noteq> [] then Some (receivedText s) else None)"
  by (auto simp add: decode_def codec_consts)

lemma decode_candidate:
  assumes "150 < m" "\<not> \<bar>f - 1800\<bar> < 40" "\<not> \<bar>f - 1600\<bar> < 40"
    "isReceiving s" "40 < \<bar>f - lastFrequency s\<bar>" "40 < t - lastFrequencyTime s"
  shows "decode m f t s =
    (if 32 \<le> uint (frequencyToChar f) \<and> uint (frequencyToChar f) \<le> 126
     then (s\<lparr>receivedText := receivedText s @ [frequencyToChar f], lastFrequency := f, lastFrequencyTime := t\<rparr>, None)
     else (s, None))"
proof -
  have "rat_of_int (t - lastFrequencyTime s) > 40" using assms(6) by linarith
  then show ?thesis using assms(1-5)
    by (simp add: decode_def codec_consts charCodeAt0_def Let_def)
qed


lemma run_two:
  "run s [(m1, f1, t1), (m2, f2, t2)] =
     (fst (decode m2 f2 t2 (fst (decode m1 f1 t1 s))),
      (case snd (decode m1 f1 t1 s) of None \<Rightarrow> [] | Some x \<Rightarrow> [x]) @
      (case snd (decode m2 f2 t2 (fst (decode m1 f1 t1 s))) of None \<Rightarrow> [] | Some x \<Rightarrow> [x]))"
  by (simp split: prod.splits)

lemma start_then_end:
  assumes "150 < m1" "\<bar>f1 - 1800\<bar> < 40" "150 < m2" "\<bar>f2 - 1600\<bar> < 40"
  shows "run s [(m1, f1, t1), (m2, f2, t2)] = (s\<lparr>isReceiving := False, receivedText := []\<rparr>, [])"
  by (simp add: run_two decode_start [OF assms(1,2)] decode_end [OF assms(3,4)])

lemma inband_not_marker:
  assumes "32 \<le> charCodeOf f"
  shows "\<not> \<bar>f - 1800\<bar> < 40" "\<not> \<bar>f - 1600\<bar> < 40"
proof -
  have "6725 \<le> f" using assms unfolding charCodeOf_ge_iff by simp
  then show "\<not> \<bar>f - 1800\<bar> < 40" "\<not> \<bar>f - 1600\<bar> < 40" by linarith+
qed

lemma inband_code:
  assumes "32 \<le> charCodeOf f" "charCodeOf f \<le> 126"
  shows "uint (frequencyToChar f) = charCodeOf f"
  using assms by (simp add: uint_frequencyToChar)

lemma decode_accept:
  assumes "150 < m" "isReceiving s" "32 \<le> charCodeOf f" "charCodeOf f \<le> 126"
    "40 < \<bar>f - lastFrequency s\<bar>" "40 < t - lastFrequencyTime s"
  shows "decode m f t s =
    (s\<lparr>receivedText := receivedText s @ [frequencyToChar f], lastFrequency := f, lastFrequencyTime := t\<rparr>, None)"
  using decode_candidate [OF assms(1) inband_not_marker [OF assms(3)] assms(2,5,6)]
    inband_code [OF assms(3,4)] assms(3,4)
  by simp

lemma decode_held:
  assumes "32 \<le> charCodeOf f" "\<bar>f - lastFrequency s\<bar> \<le> 40"
  shows "decode m f t s = (s, None)"
  using inband_not_marker [OF assms(1)] assms(2)
  by (simp add: decode_def codec_consts)

lemma decode_inband_cases:
  assumes "32 \<le> charCodeOf f" "charCodeOf f \<le> 126"
  shows "decode m f t s = (s, None) \<or>
    decode m f t s =
      (s\<lparr>receivedText := receivedText s @ [frequencyToChar f], lastFrequency := f, lastFrequencyTime := t\<rparr>, None)"
  using inband_not_marker [OF assms(1)]
  by (simp add: decode_def codec_consts Let_def)

lemma run_held:
  assumes "32 \<le> charCodeOf f" "\<bar>f - lastFrequency s\<bar> \<le> 40"
  shows "run s (map (\<lambda>(m, t). (m, f, t)) obs) = (s, [])"
  by (induction obs) (auto simp add: decode_held [OF assms])

lemma run_inband_at_most_one:
  assumes "32 \<le> charCodeOf f" "charCodeOf f \<le> 126"
  shows "receivedText (fst (run s (map (\<lambda>(m, t). (m, f, t)) obs))) = receivedText s \<or>
         receivedText (fst (run s (map (\<lambda>(m, t). (m, f, t)) obs))) = receivedText s @ [frequencyToChar f]"
proof (induction obs)
  case Nil
  then show ?case by simp
next
  case (Cons p obs)
  obtain m t where p: "p = (m, t)" by (cases p)
  let ?s' = "s\<lparr>receivedText := receivedText s @ [frequencyToChar f], lastFrequency := f, lastFrequencyTime := t\<rparr>"
  from decode_inband_cases [OF assms, of m t s] show ?case
  proof
    assume "decode m f t s = (s, None)"
    then show ?thesis using Cons.IH by (simp add: p split: prod.splits)
  next
    assume d: "decode m f t s = (?s', None)"
    have "run ?s' (map (\<lambda>(m, t). (m, f, t)) obs) = (?s', [])"
      by (rule run_held [OF assms(1)]) simp
    then show ?thesis using d by (simp add: p)
  qed
qed

lemma wrap_range:
  fixes k :: int
  assumes "-13 \<le> k" "k \<le> 65567"
  shows "(32 \<le> k mod 65536 \<and> k mod 65536 \<le> 126) \<longleftrightarrow> (32 \<le> k \<and> k \<le> 126)"
    and "k < 0 \<Longrightarrow> 65523 \<le> k mod 65536"
proof -
  consider "k < 0" | "0 \<le> k \<and> k < 65536" | "65536 \<le> k" by linarith
  then have "(k < 0 \<and> k mod 65536 = k + 65536) \<or> (0 \<le> k \<and> k < 65536 \<and> k mod 65536 = k)
      \<or> (65536 \<le> k \<and> k mod 65536 = k - 65536)"
  proof cases
    case 1
    have "(k + 65536) mod 65536 = k + 65536"
      using 1 assms(1) by (intro mod_pos_pos_trivial) linarith+
    then show ?thesis using 1 by simp
  next
    case 2
    then show ?thesis by simp
  next
    case 3
    have "(k - 65536) mod 65536 = k - 65536"
      using 3 assms(2) by (intro mod_pos_pos_trivial) linarith+
    then show ?thesis using 3 by simp
  qed
  then show "(32 \<le> k mod 65536 \<and> k mod 65536 \<le> 126) \<longleftrightarrow> (32 \<le> k \<and> k \<le> 126)"
    and "k < 0 \<Longrightarrow> 65523 \<le> k mod 65536"
    using assms by linarith+
qed

lemma charCodeOf_bounds:
  assumes "0 \<le> f" "f < 9837125"
  shows "-13 \<le> charCodeOf f" "charCodeOf f \<le> 65567"
  using assms unfolding charCodeOf_ge_iff charCodeOf_le_iff by simp_all

lemma marker_code_negative:
  assumes "\<bar>f - 1800\<bar> < 40 \<or> \<bar>f - 1600\<bar> < 40"
  shows "charCodeOf f \<le> -1" "-13 \<le> charCodeOf f"
proof -
  from assms have "f < 1925" "-25 \<le> f" by linarith+
  then show "charCodeOf f \<le> -1" "-13 \<le> charCodeOf f"
    unfolding charCodeOf_ge_iff charCodeOf_le_iff by simp_all
qed

lemma readings_Nil: "readings [] obs = []"
  by (simp add: readings_def)

lemma readings_Cons: "readings ((f, d) # tones) ((m, t) # obs) = (m, f, t) # readings tones obs"
  by (simp add: readings_def)

lemma readings_append:
  "length tones = length obs \<Longrightarrow>
   readings (tones @ tones') (obs @ obs') = readings tones obs @ readings tones' obs'"
  by (simp add: readings_def)

lemma run_append:
  "run s (xs @ ys) =
     (case run s xs of (s', es) \<Rightarrow> case run s' ys of (s'', es') \<Rightarrow> (s'', es @ es'))"
  by (induction xs arbitrary: s) (auto split: prod.splits option.splits)

lemma run_symbols:
  assumes "isReceiving s"
    and "length obs = length msg"
    and "\<forall>p \<in> set obs. 150 < fst p"
    and "\<forall>c \<in> set msg. 32 \<le> uint c \<and> uint c \<le> 126"
    and "distinct_adj msg"
    and "msg \<noteq> [] \<longrightarrow> 40 < \<bar>charToFrequency (hd msg) - lastFrequency s\<bar>"
    and "successively (\<lambda>a b. 40 < b - a) (lastFrequencyTime s # map snd obs)"
  shows "\<exists>s'. run s (readings (map (\<lambda>char. (charToFrequency char, d)) msg) obs) = (s', [])
              \<and> isReceiving s' \<and> receivedText s' = receivedText s @ msg"
  using assms
proof (induction msg arbitrary: s obs)
  case Nil
  then show ?case by (simp add: readings_Nil)
next
  case (Cons c msg)
  from Cons.prems(2) obtain m t obs' where obs: "obs = (m, t) # obs'"
    by (cases obs) auto
  let ?s1 = "s\<lparr>receivedText := receivedText s @ [c], lastFrequency := charToFrequency c,
                lastFrequencyTime := t\<rparr>"
  have m: "150 < m" using Cons.prems(3) by (simp add: obs)
  have rng: "32 \<le> charCodeOf (charToFrequency c)" "charCodeOf (charToFrequency c) \<le> 126"
    using Cons.prems(4) by (simp_all add: charCodeOf_charToFrequency)
  have fr: "40 < \<bar>charToFrequency c - lastFrequency s\<bar>" using Cons.prems(6) by simp
  have tm: "40 < t - lastFrequencyTime s" using Cons.prems(7) by (simp add: obs)
  have d: "decode m (charToFrequency c) t s = (?s1, None)"
    using decode_accept [OF m Cons.prems(1) rng fr tm]
    by (simp add: frequencyToChar_charToFrequency)
  have nxt: "msg \<noteq> [] \<longrightarrow> 40 < \<bar>charToFrequency (hd msg) - lastFrequency ?s1\<bar>"
  proof
    assume "msg \<noteq> []"
    then have "c \<noteq> hd msg" using Cons.prems(5) by (cases msg) simp_all
    then have "hd msg \<noteq> c" by simp
    from charToFrequency_apart [OF this] show "40 < \<bar>charToFrequency (hd msg) - lastFrequency ?s1\<bar>"
      by simp
  qed
  have da: "distinct_adj msg" using Cons.prems(5) by (cases msg) simp_all
  have ts: "successively (\<lambda>a b. 40 < b - a) (lastFrequencyTime ?s1 # map snd obs')"
    using Cons.prems(7) by (simp add: obs)
  have "\<exists>s'. run ?s1 (readings (map (\<lambda>char. (charToFrequency char, d)) msg) obs') = (s', [])
              \<and> isReceiving s' \<and> receivedText s' = receivedText ?s1 @ msg"
    using Cons.prems(1,2,3,4) by (intro Cons.IH [OF _ _ _ _ da nxt ts]) (simp_all add: obs)
  then obtain s' where s': "run ?s1 (readings (map (\<lambda>char. (charToFrequency char, d)) msg) obs') = (s', [])"
    "isReceiving s'" "receivedText s' = receivedText ?s1 @ msg" by blast
  have "run s (readings (map (\<lambda>char. (charToFrequency char, d)) (c # msg)) obs) = (s', [])"
    by (simp add: obs readings_Cons d s'(1))
  then show ?case using s'(2,3) by simp
qed

lemma successively_head_earlier:
  fixes a a' :: int
  assumes "successively (\<lambda>a b. 40 < b - a) (a # ts)" "a' \<le> a"
  shows "successively (\<lambda>a b. 40 < b - a) (a' # ts)"
  using assms by (cases ts) auto

text \<open>
  The peak search: \<open>analyze\<close> is \<open>decode\<close> at the peak it finds. With the 2048 bins of
  the analyser, the dominant frequency lies between 0 and half the sample rate.
\<close>

lemma peak_loop_index:
  "snd (peak_loop dataArray i (maxValue, maxIndex)) = maxIndex \<or>
   (i \<le> snd (peak_loop dataArray i (maxValue, maxIndex)) \<and>
    snd (peak_loop dataArray i (maxValue, maxIndex)) < i + length dataArray)"
proof (induction dataArray arbitrary: i maxValue maxIndex)
  case Nil
  then show ?case by simp
next
  case (Cons d dataArray)
  show ?case
  proof (cases "unat d > maxValue")
    case True
    with Cons.IH [of "Suc i" "unat d" i] show ?thesis by auto
  next
    case False
    with Cons.IH [of "Suc i" maxValue maxIndex] show ?thesis by auto
  qed
qed

lemma peak_loop_value:
  "fst (peak_loop dataArray i (maxValue, maxIndex)) \<le> max maxValue 255"
proof (induction dataArray arbitrary: i maxValue maxIndex)
  case Nil
  then show ?case by simp
next
  case (Cons d dataArray)
  have "unat d \<le> 255" using unsigned_less [of d, where 'a = nat] by simp
  then show ?case
    using Cons.IH [of "Suc i" "unat d" i] Cons.IH [of "Suc i" maxValue maxIndex]
    by auto
qed

lemma analyze_decode:
  "analyze sampleRate dataArray now s =
     decode (fst (peak_loop dataArray 0 (0, 0)))
       (of_nat (snd (peak_loop dataArray 0 (0, 0))) * sampleRate / fftSize) now s"
  by (simp add: analyze_def split: prod.splits)

lemma analyze_frequency_range:
  assumes "0 < sampleRate" "length dataArray \<le> 2048"
  shows "0 \<le> of_nat (snd (peak_loop dataArray 0 (0, 0))) * sampleRate / fftSize"
    and "of_nat (snd (peak_loop dataArray 0 (0, 0))) * sampleRate / fftSize \<le> sampleRate / 2"
proof -
  let ?k = "snd (peak_loop dataArray 0 (0, 0))"
  have "?k \<le> 2048" using peak_loop_index [of dataArray 0 0 0] assms(2) by auto
  then have k: "rat_of_nat ?k \<le> 2048" by (metis of_nat_le_iff of_nat_numeral)
  show "0 \<le> of_nat ?k * sampleRate / fftSize"
    using assms(1) by (simp add: fftSize_def)
  have "of_nat ?k * sampleRate \<le> 2048 * sampleRate"
    using k assms(1) by (intro mult_right_mono) simp_all
  then show "of_nat ?k * sampleRate / fftSize \<le> sampleRate / 2"
    by (simp add: fftSize_def mult.commute)
qed

lemma analyze_dominant:
  "analyze sampleRate dataArray now s =
     decode (fst (peak_loop dataArray 0 (0, 0))) (dominantFrequencyOf sampleRate dataArray) now s"
  by (simp add: analyze_def dominantFrequencyOf_def split: prod.splits)

lemma dominantFrequencyOf_range:
  assumes "0 \<le> sampleRate" "length dataArray \<le> 2048"
  shows "0 \<le> dominantFrequencyOf sampleRate dataArray"
    and "dominantFrequencyOf sampleRate dataArray \<le> sampleRate / 2"
proof -
  let ?k = "snd (peak_loop dataArray 0 (0, 0))"
  have "?k \<le> 2048" using peak_loop_index [of dataArray 0 0 0] assms(2) by auto
  then have k: "rat_of_nat ?k \<le> 2048" by (metis of_nat_le_iff of_nat_numeral)
  show "0 \<le> dominantFrequencyOf sampleRate dataArray"
    using assms(1) by (simp add: dominantFrequencyOf_def fftSize_def)
  have "of_nat ?k * sampleRate \<le> 2048 * sampleRate"
    using k assms(1) by (intro mult_right_mono) simp_all
  then show "dominantFrequencyOf sampleRate dataArray \<le> sampleRate / 2"
    by (simp add: dominantFrequencyOf_def fftSize_def mult.commute)
qed

lemma peak_loop_leading_zeros:
  "peak_loop (replicate n 0 @ dataArray) i (0, 0) = peak_loop dataArray (i + n) (0, 0)"
  by (induction n arbitrary: i) simp_all

lemma acceptance_below_wrap:
  assumes "0 \<le> f" and "f < 9837125"
  shows "(32 \<le> charCodeAt0 (frequencyToChar f) \<and> charCodeAt0 (frequencyToChar f) \<le> 126)
            \<longleftrightarrow> (32 \<le> charCodeOf f \<and> charCodeOf f \<le> 126)"
    and "charCodeAt0 (frequencyToChar f) = charCodeOf f mod 2 ^ 16"
    and "-13 \<le> charCodeOf f"
    and "charCodeOf f < 0 \<longrightarrow> 65523 \<le> charCodeAt0 (frequencyToChar f)"
proof -
  note b = charCodeOf_bounds [OF assms]
  have u: "charCodeAt0 (frequencyToChar f) = charCodeOf f mod 65536"
    by (simp add: charCodeAt0_def uint_frequencyToChar)
  show "(32 \<le> charCodeAt0 (frequencyToChar f) \<and> charCodeAt0 (frequencyToChar f) \<le> 126)
            \<longleftrightarrow> (32 \<le> charCodeOf f \<and> charCodeOf f \<le> 126)"
    unfolding u by (rule wrap_range(1) [OF b])
  show "charCodeOf f < 0 \<longrightarrow> 65523 \<le> charCodeAt0 (frequencyToChar f)"
    unfolding u using wrap_range(2) [OF b] by blast
  show "charCodeAt0 (frequencyToChar f) = charCodeOf f mod 2 ^ 16"
    using u by simp
  show "-13 \<le> charCodeOf f" by (rule b(1))
qed

lemma marker_rejected:
  assumes "\<bar>f - 1800\<bar> < 40 \<or> \<bar>f - 1600\<bar> < 40"
  shows "\<not> (32 \<le> charCodeAt0 (frequencyToChar f) \<and> charCodeAt0 (frequencyToChar f) \<le> 126)"
proof -
  from assms have "0 \<le> f" "f < 9837125" by linarith+
  from acceptance_below_wrap(1) [OF this] marker_code_negative(1) [OF assms]
  show ?thesis by linarith
qed

text \<open>
  Beyond that bound the 16-bit wrap reaches the printable range: at 9837200 Hz the
  rounded ordinal 65568 becomes the code 32. No sample rate below 19.67 MHz gives the
  analyser such a frequency.
\<close>

lemma wrap_above_bound:
  "charCodeOf 9837200 = 65568 \<and> charCodeAt0 (frequencyToChar 9837200) = 32"
proof -
  have c: "charCodeOf 9837200 = 65568" by (simp add: charCodeOf_def codec_consts)
  have e: "frequencyToChar 9837200 = 32" by (simp add: frequencyToChar_def c fromCharCode_def)
  show ?thesis by (simp add: c e charCodeAt0_def)
qed

lemma decode_early:
  assumes "32 \<le> charCodeOf f" "\<not> 40 < t - lastFrequencyTime s"
  shows "decode m f t s = (s, None)"
proof -
  have "\<not> rat_of_int (t - lastFrequencyTime s) > 40" using assms(2) by linarith
  then show ?thesis
    using inband_not_marker [OF assms(1)]
    by (simp add: decode_def codec_consts)
qed

lemma run_early:
  assumes "32 \<le> charCodeOf f" "\<forall>p \<in> set obs. \<not> 40 < snd p - lastFrequencyTime s"
  shows "run s (map (\<lambda>(m, t). (m, f, t)) obs) = (s, [])"
  using assms(2)
proof (induction obs)
  case Nil
  then show ?case by simp
next
  case (Cons p obs)
  obtain m t where p: "p = (m, t)" by (cases p)
  have "decode m f t s = (s, None)"
    using Cons.prems by (intro decode_early [OF assms(1)]) (simp add: p)
  then show ?case using Cons by (simp add: p)
qed

lemma run_sustained:
  assumes "isReceiving s" "\<forall>p \<in> set obs. 150 < fst p"
    "32 \<le> charCodeOf f" "charCodeOf f \<le> 126"
    "40 < \<bar>f - lastFrequency s\<bar>"
    "\<exists>p \<in> set obs. 40 < snd p - lastFrequencyTime s"
  shows "run s (map (\<lambda>(m, t). (m, f, t)) obs) =
    (s\<lparr>receivedText := receivedText s @ [frequencyToChar f], lastFrequency := f,
       lastFrequencyTime := snd (hd (dropWhile (\<lambda>p. \<not> 40 < snd p - lastFrequencyTime s) obs))\<rparr>, [])"
  using assms(2,6)
proof (induction obs)
  case Nil
  then show ?case by simp
next
  case (Cons p obs)
  obtain m t where p: "p = (m, t)" by (cases p)
  have m: "150 < m" using Cons.prems(1) by (simp add: p)
  show ?case
  proof (cases "40 < t - lastFrequencyTime s")
    case True
    let ?s' = "s\<lparr>receivedText := receivedText s @ [frequencyToChar f], lastFrequency := f,
                  lastFrequencyTime := t\<rparr>"
    have d: "decode m f t s = (?s', None)"
      by (rule decode_accept [OF m assms(1,3,4,5) True])
    have "run ?s' (map (\<lambda>(m, t). (m, f, t)) obs) = (?s', [])"
      by (rule run_held [OF assms(3)]) simp
    then show ?thesis using d True by (simp add: p)
  next
    case False
    have d: "decode m f t s = (s, None)"
      by (rule decode_early [OF assms(3) False])
    have "\<exists>p \<in> set obs. 40 < snd p - lastFrequencyTime s"
      using Cons.prems(2) False by (simp add: p)
    moreover have "\<forall>p \<in> set obs. 150 < fst p" using Cons.prems(1) by simp
    ultimately show ?thesis using Cons.IH d False by (simp add: p)
  qed
qed

lemma late_iff:
  "(rat_of_int (t - l) > CHAR_DURATION * 1000 * (8 / 10)) = (40 < t - l)"
  by (simp add: codec_consts, linarith)

section \<open>The claims\<close>

subsection \<open>The end marker\<close>

text \<open>
  Claim C1. A tick louder than the threshold whose dominant frequency is within the
  tolerance of the end marker sets the receiver idle and emits the buffer when it is not
  empty; the claim adds that the buffer is cleared afterwards, so that a further end
  marker tick emits nothing. The end marker branch of \<open>decode\<close> does not assign
  \<open>receivedText\<close>: after the message HI, two successive ticks of the same end marker
  tone each emit HI, and the buffer still holds HI.
\<close>

theorem end_marker_emits_again:
  "run (startListening 0)
     [(200, 1800, 0), (200, 12800, 50), (200, 12950, 100), (200, 1600, 150), (200, 1600, 166)]
   = (\<lparr>isReceiving = False, receivedText = [72, 73], lastFrequency = 12950, lastFrequencyTime = 100\<rparr>,
      [[72, 73], [72, 73]])"
  by (simp add: startListening_def decode_def codec_consts frequencyToChar_def charCodeOf_def
      fromCharCode_def charCodeAt0_def)

subsection \<open>The frequency mapping\<close>

text \<open>
  Claim C3, as amended. The frequency of a character is
  \<open>BASE_FREQUENCY + code * FREQUENCY_STEP\<close> with base 2000 Hz and step 150 Hz; the band
  of the printable characters runs from 6800 Hz at code 32 to 20900 Hz at code 126.
\<close>

theorem charToFrequency_band:
  "charToFrequency c = BASE_FREQUENCY + of_int (charCodeAt0 c) * FREQUENCY_STEP
   \<and> BASE_FREQUENCY = 2000 \<and> FREQUENCY_STEP = 150
   \<and> charToFrequency 32 = 6800 \<and> charToFrequency 126 = 20900
   \<and> (32 \<le> charCodeAt0 c \<and> charCodeAt0 c \<le> 126 \<longrightarrow>
        6800 \<le> charToFrequency c \<and> charToFrequency c \<le> 20900)"
proof -
  have "32 \<le> uint c \<Longrightarrow> 6800 \<le> 2000 + 150 * rat_of_int (uint c)" by linarith
  moreover have "uint c \<le> 126 \<Longrightarrow> 2000 + 150 * rat_of_int (uint c) \<le> 20900" by linarith
  ultimately show ?thesis
    by (simp add: charToFrequency_def charCodeAt0_def codec_consts)
qed

theorem charToFrequency_band_witness:
  "32 \<le> charCodeAt0 65 \<and> charCodeAt0 65 \<le> 126 \<and> charToFrequency 65 = 11750
   \<and> 6800 \<le> charToFrequency 65 \<and> charToFrequency 65 \<le> 20900"
  using charToFrequency_band [of 65]
  by (simp add: charToFrequency_def charCodeAt0_def codec_consts)

text \<open>
  The claim as written puts code 32 at 2000 Hz and code 126 near 16700 Hz.
\<close>

theorem charToFrequency_32_counterexample:
  "charCodeAt0 32 = 32 \<and> charToFrequency 32 = 6800 \<and> charToFrequency 32 \<noteq> 2000
   \<and> charCodeAt0 126 = 126 \<and> charToFrequency 126 = 20900"
  by (simp add: charToFrequency_def charCodeAt0_def codec_consts)

text \<open>
  Claim C5. For every ordinal from 32 to 126, the character of that ordinal is mapped to
  a frequency and back to itself: rounding \<open>(BASE_FREQUENCY + k * FREQUENCY_STEP -
  BASE_FREQUENCY) / FREQUENCY_STEP\<close> gives \<open>k\<close>.
\<close>

theorem frequency_roundtrip:
  assumes "32 \<le> k" "k \<le> 126"
  shows "charCodeAt0 (frequencyToChar (charToFrequency (fromCharCode k))) = k
         \<and> round ((BASE_FREQUENCY + of_int k * FREQUENCY_STEP - BASE_FREQUENCY) / FREQUENCY_STEP) = k"
proof -
  have "uint (word_of_int k :: 16 word) = k"
    using assms by (simp add: uint_word_of_int)
  then show ?thesis
    by (simp add: frequencyToChar_charToFrequency charCodeAt0_def fromCharCode_def codec_consts)
qed

theorem frequency_roundtrip_witness:
  "(32::int) \<le> 72 \<and> (72::int) \<le> 126
   \<and> charCodeAt0 (frequencyToChar (charToFrequency (fromCharCode 72))) = 72
   \<and> charToFrequency (fromCharCode 72) = 12800"
  using frequency_roundtrip [of 72]
  by (simp add: charToFrequency_def charCodeAt0_def fromCharCode_def codec_consts)

subsection \<open>Round trip\<close>

text \<open>
  Claim C2, as amended. Let the text be non-empty, with every character code in 32..126
  and no two adjacent characters equal. \<open>encodeText\<close> turns it into the start marker
  (1800 Hz), one tone of frequency \<open>charToFrequency c\<close> per character in order, and the
  end marker (1600 Hz). The receiver, idle or not, reads one tick per tone, each louder
  than the threshold and consecutive ticks more than \<open>0.8 * CHAR_DURATION\<close> (40 ms)
  apart. Its last accepted time is not later than the first tick, and its last accepted
  frequency is further than the tolerance from the frequency of the first character (in
  the initial state that frequency is 0, so this always holds there). Then it emits
  exactly one frame, the text.
\<close>

theorem encode_decode_roundtrip_any_state:
  assumes "msg \<noteq> []"
    and "\<forall>c \<in> set msg. 32 \<le> charCodeAt0 c \<and> charCodeAt0 c \<le> 126"
    and "distinct_adj msg"
    and "length obs = length (encodeText msg)"
    and "\<forall>p \<in> set obs. fst p > SIGNAL_THRESHOLD"
    and "successively (\<lambda>a b. of_int (b - a) > CHAR_DURATION * 1000 * (8 / 10)) (map snd obs)"
    and "lastFrequencyTime s \<le> snd (hd obs)"
    and "\<bar>charToFrequency (hd msg) - lastFrequency s\<bar> > FREQUENCY_TOLERANCE"
  shows "snd (run s (readings (encodeText msg) obs)) = [msg]"
proof -
  have len: "length obs = Suc (Suc (length msg))"
    using assms(4) by (simp add: encodeText_def)
  then obtain m0 t0 rest where obs0: "obs = (m0, t0) # rest" and lrest: "length rest = Suc (length msg)"
    by (cases obs) auto
  from lrest obtain mid me te where rest: "rest = mid @ [(me, te)]" and lmid: "length mid = length msg"
    by (cases rest rule: rev_cases) auto
  have obs: "obs = (m0, t0) # mid @ [(me, te)]" by (simp add: obs0 rest)
  let ?sym = "map (\<lambda>char. (charToFrequency char, CHAR_DURATION)) msg"
  have enc: "encodeText msg = (1800, CHAR_DURATION) # ?sym @ [(1600, CHAR_DURATION)]"
    by (simp add: encodeText_def START_MARKER_FREQ_def END_MARKER_FREQ_def)
  have rd: "readings (encodeText msg) obs =
      (m0, 1800, t0) # readings ?sym mid @ [(me, 1600, te)]"
    unfolding enc obs readings_Cons
    by (simp add: readings_append lmid readings_Cons readings_Nil)
  have mags: "150 < m0" "\<forall>p \<in> set mid. 150 < fst p" "150 < me"
    using assms(5) by (simp_all add: obs codec_consts)
  let ?s1 = "s\<lparr>isReceiving := True, receivedText := []\<rparr>"
  have d0: "decode m0 1800 t0 s = (?s1, None)"
    by (rule decode_start [OF mags(1)]) simp
  have same: "(\<lambda>a b. rat_of_int (b - a) > CHAR_DURATION * 1000 * (8 / 10)) = (\<lambda>a b. 40 < b - a)"
    by (intro ext) (simp add: codec_consts, linarith)
  have "successively (\<lambda>a b. 40 < b - a) ((t0 # map snd mid) @ [te])"
    using assms(6) unfolding same by (simp add: obs)
  then have "successively (\<lambda>a b. 40 < b - a) (t0 # map snd mid)"
    unfolding successively_append_iff by blast
  moreover have "lastFrequencyTime s \<le> t0" using assms(7) by (simp add: obs)
  ultimately have ts: "successively (\<lambda>a b. 40 < b - a) (lastFrequencyTime ?s1 # map snd mid)"
    using successively_head_earlier [of t0 "map snd mid" "lastFrequencyTime s"]
    by simp
  have fr: "msg \<noteq> [] \<longrightarrow> 40 < \<bar>charToFrequency (hd msg) - lastFrequency ?s1\<bar>"
    using assms(8) by (simp add: codec_consts)
  have rng: "\<forall>c \<in> set msg. 32 \<le> uint c \<and> uint c \<le> 126"
    using assms(2) by (simp add: charCodeAt0_def)
  have "\<exists>s'. run ?s1 (readings ?sym mid) = (s', [])
              \<and> isReceiving s' \<and> receivedText s' = receivedText ?s1 @ msg"
    by (rule run_symbols [OF _ lmid mags(2) rng assms(3) fr ts]) simp
  then obtain s2 where s2: "run ?s1 (readings ?sym mid) = (s2, [])" "receivedText s2 = msg"
    by auto
  have de: "decode me 1600 te s2 = (s2\<lparr>isReceiving := False\<rparr>, Some msg)"
    using decode_end [OF mags(3), of 1600 te s2] assms(1) s2(2) by simp
  have "run s (readings (encodeText msg) obs) = (s2\<lparr>isReceiving := False\<rparr>, [msg])"
    unfolding rd by (simp add: d0 run_append s2(1) de)
  then show ?thesis by simp
qed

theorem encode_decode_roundtrip_any_state_witness:
  "snd (run \<lparr>isReceiving = False, receivedText = [72, 73], lastFrequency = 12950, lastFrequencyTime = 100\<rparr>
          (readings (encodeText [79, 75]) [(200, 1000), (200, 1050), (200, 1100), (200, 1150)]))
     = [[79, 75]]
   \<and> snd (run (startListening 0)
          (readings (encodeText [72, 73]) [(200, 0), (200, 50), (200, 100), (200, 150)]))
     = [[72, 73]]"
proof -
  let ?s = "\<lparr>isReceiving = False, receivedText = [72, 73], lastFrequency = 12950, lastFrequencyTime = 100\<rparr>"
  let ?obs = "[(200, 1000), (200, 1050), (200, 1100), (200, 1150)] :: (nat \<times> int) list"
  let ?obs' = "[(200, 0), (200, 50), (200, 100), (200, 150)] :: (nat \<times> int) list"
  have h: "[79, 75] \<noteq> ([] :: jsstring)"
    "\<forall>c \<in> set ([79, 75] :: jsstring). 32 \<le> charCodeAt0 c \<and> charCodeAt0 c \<le> 126"
    "distinct_adj ([79, 75] :: jsstring)"
    "length ?obs = length (encodeText [79, 75])"
    "\<forall>p \<in> set ?obs. fst p > SIGNAL_THRESHOLD"
    "successively (\<lambda>a b. of_int (b - a) > CHAR_DURATION * 1000 * (8 / 10)) (map snd ?obs)"
    "lastFrequencyTime ?s \<le> snd (hd ?obs)"
    "\<bar>charToFrequency (hd [79, 75]) - lastFrequency ?s\<bar> > FREQUENCY_TOLERANCE"
    by (simp_all add: charCodeAt0_def encodeText_def codec_consts charToFrequency_def)
  have h': "[72, 73] \<noteq> ([] :: jsstring)"
    "\<forall>c \<in> set ([72, 73] :: jsstring). 32 \<le> charCodeAt0 c \<and> charCodeAt0 c \<le> 126"
    "distinct_adj ([72, 73] :: jsstring)"
    "length ?obs' = length (encodeText [72, 73])"
    "\<forall>p \<in> set ?obs'. fst p > SIGNAL_THRESHOLD"
    "successively (\<lambda>a b. of_int (b - a) > CHAR_DURATION * 1000 * (8 / 10)) (map snd ?obs')"
    "lastFrequencyTime (startListening 0) \<le> snd (hd ?obs')"
    "\<bar>charToFrequency (hd [72, 73]) - lastFrequency (startListening 0)\<bar> > FREQUENCY_TOLERANCE"
    by (simp_all add: charCodeAt0_def encodeText_def codec_consts charToFrequency_def startListening_def)
  from encode_decode_roundtrip_any_state [OF h] encode_decode_roundtrip_any_state [OF h']
  show ?thesis by (rule conjI)
qed

text \<open>
  The claim as written covers every text over 32..126 and every idle state. The second
  of two equal adjacent characters is dropped by the debounce test on the frequency, so
  AA is received as A; the empty text emits no frame at all; and in the idle state left
  by the frame HI, whose last accepted frequency is that of I, the text IH is received
  as H.
\<close>

theorem roundtrip_failures_counterexample:
  "32 \<le> charCodeAt0 65 \<and> charCodeAt0 65 \<le> 126
   \<and> encodeText [65, 65] = [(1800, 1 / 20), (11750, 1 / 20), (11750, 1 / 20), (1600, 1 / 20)]
   \<and> snd (run (startListening 0)
        (readings (encodeText [65, 65]) [(200, 0), (200, 50), (200, 100), (200, 150)])) = [[65]]
   \<and> snd (run (startListening 0)
        (readings (encodeText [65, 65]) [(200, 0), (200, 50), (200, 100), (200, 150)])) \<noteq> [[65, 65]]
   \<and> snd (run (startListening 0) (readings (encodeText []) [(200, 0), (200, 50)])) = []
   \<and> snd (run (startListening 0) (readings (encodeText []) [(200, 0), (200, 50)])) \<noteq> [[]]
   \<and> run (startListening 0)
        (readings (encodeText [72, 73]) [(200, 0), (200, 50), (200, 100), (200, 150)])
      = (\<lparr>isReceiving = False, receivedText = [72, 73], lastFrequency = 12950, lastFrequencyTime = 100\<rparr>,
         [[72, 73]])
   \<and> snd (run \<lparr>isReceiving = False, receivedText = [72, 73], lastFrequency = 12950, lastFrequencyTime = 100\<rparr>
        (readings (encodeText [73, 72]) [(200, 1000), (200, 1050), (200, 1100), (200, 1150)])) = [[72]]
   \<and> snd (run \<lparr>isReceiving = False, receivedText = [72, 73], lastFrequency = 12950, lastFrequencyTime = 100\<rparr>
        (readings (encodeText [73, 72]) [(200, 1000), (200, 1050), (200, 1100), (200, 1150)])) \<noteq> [[73, 72]]"
  by (simp add: readings_def encodeText_def startListening_def decode_def codec_consts
      charToFrequency_def charCodeAt0_def frequencyToChar_def charCodeOf_def fromCharCode_def)

subsection \<open>The start marker\<close>

text \<open>
  Claim C4, as amended. A tick louder than the threshold whose dominant frequency is
  within the tolerance of the start marker sets the receiver receiving and empties the
  buffer, whatever the state before; it emits nothing and leaves the last accepted
  frequency and the last accepted time as they were.
\<close>

theorem start_marker_tick:
  assumes "maxValue > SIGNAL_THRESHOLD"
    and "\<bar>dominantFrequency - START_MARKER_FREQ\<bar> < FREQUENCY_TOLERANCE"
  shows "isReceiving (fst (decode maxValue dominantFrequency now s)) = True
         \<and> receivedText (fst (decode maxValue dominantFrequency now s)) = []
         \<and> lastFrequency (fst (decode maxValue dominantFrequency now s)) = lastFrequency s
         \<and> lastFrequencyTime (fst (decode maxValue dominantFrequency now s)) = lastFrequencyTime s
         \<and> snd (decode maxValue dominantFrequency now s) = None"
  using assms by (simp add: decode_def)

theorem start_marker_tick_witness:
  "(200::nat) > SIGNAL_THRESHOLD \<and> \<bar>1800 - START_MARKER_FREQ\<bar> < FREQUENCY_TOLERANCE
   \<and> decode 200 1800 2000
        \<lparr>isReceiving = False, receivedText = [72], lastFrequency = 12800, lastFrequencyTime = 1000\<rparr>
      = (\<lparr>isReceiving = True, receivedText = [], lastFrequency = 12800, lastFrequencyTime = 1000\<rparr>, None)"
  using start_marker_tick [of 200 1800 2000
      "\<lparr>isReceiving = False, receivedText = [72], lastFrequency = 12800, lastFrequencyTime = 1000\<rparr>"]
  by (simp add: decode_def codec_consts)

text \<open>
  The claim as written has both fields back at their initial values. After one accepted
  character H, a start marker tick leaves them at the frequency and the time of H.
\<close>

theorem start_marker_no_reset_counterexample:
  "fst (run (startListening 0) [(200, 1800, 0), (200, 12800, 1000), (200, 1800, 2000)])
     = \<lparr>isReceiving = True, receivedText = [], lastFrequency = 12800, lastFrequencyTime = 1000\<rparr>
   \<and> lastFrequency (fst (run (startListening 0) [(200, 1800, 0), (200, 12800, 1000), (200, 1800, 2000)]))
       \<noteq> lastFrequency (startListening 0)
   \<and> lastFrequencyTime (fst (run (startListening 0) [(200, 1800, 0), (200, 12800, 1000), (200, 1800, 2000)]))
       \<noteq> lastFrequencyTime (startListening 0)"
  by (simp add: startListening_def decode_def codec_consts frequencyToChar_def charCodeOf_def
      fromCharCode_def charCodeAt0_def)

subsection \<open>Empty frames\<close>

text \<open>
  Claim C8. From every state of the receiver (so from every reachable one), a start
  marker tick followed at once by an end marker tick emits no frame.
\<close>

theorem empty_frame_suppressed:
  assumes "m1 > SIGNAL_THRESHOLD" and "\<bar>f1 - START_MARKER_FREQ\<bar> < FREQUENCY_TOLERANCE"
    and "m2 > SIGNAL_THRESHOLD" and "\<bar>f2 - END_MARKER_FREQ\<bar> < FREQUENCY_TOLERANCE"
  shows "snd (run s [(m1, f1, t1), (m2, f2, t2)]) = []"
proof -
  have "run s [(m1, f1, t1), (m2, f2, t2)] = (s\<lparr>isReceiving := False, receivedText := []\<rparr>, [])"
    using assms by (intro start_then_end) (simp_all add: codec_consts)
  then show ?thesis by (simp only: snd_conv)
qed

theorem empty_frame_suppressed_witness:
  "(200::nat) > SIGNAL_THRESHOLD \<and> \<bar>1810 - START_MARKER_FREQ\<bar> < FREQUENCY_TOLERANCE
   \<and> (180::nat) > SIGNAL_THRESHOLD \<and> \<bar>1590 - END_MARKER_FREQ\<bar> < FREQUENCY_TOLERANCE
   \<and> snd (run \<lparr>isReceiving = True, receivedText = [72, 73], lastFrequency = 12950, lastFrequencyTime = 100\<rparr>
        [(200, 1810, 150), (180, 1590, 200)]) = []"
proof -
  have h: "(200::nat) > SIGNAL_THRESHOLD" "\<bar>1810 - START_MARKER_FREQ\<bar> < FREQUENCY_TOLERANCE"
    "(180::nat) > SIGNAL_THRESHOLD" "\<bar>1590 - END_MARKER_FREQ\<bar> < FREQUENCY_TOLERANCE"
    by (simp_all add: codec_consts)
  from empty_frame_suppressed [OF h] h show ?thesis by blast
qed

text \<open>
  Claim C10. The empty text is sent as two tones, the start marker at 1800 Hz and the end
  marker at 1600 Hz, each of duration \<open>CHAR_DURATION\<close>. Their two readings make the
  receiver emit nothing: from any state when both are louder than the threshold, and from
  the initial state whatever their magnitudes.
\<close>

theorem encode_empty_text:
  "encodeText [] = [(START_MARKER_FREQ, CHAR_DURATION), (END_MARKER_FREQ, CHAR_DURATION)]
   \<and> START_MARKER_FREQ = 1800 \<and> END_MARKER_FREQ = 1600
   \<and> (m1 > SIGNAL_THRESHOLD \<and> m2 > SIGNAL_THRESHOLD \<longrightarrow>
        snd (run s (readings (encodeText []) [(m1, t1), (m2, t2)])) = [])
   \<and> snd (run (startListening now0) (readings (encodeText []) [(m1, t1), (m2, t2)])) = []"
proof -
  have r: "readings (encodeText []) [(m1, t1), (m2, t2)] = [(m1, 1800, t1), (m2, 1600, t2)]"
    by (simp add: readings_def encodeText_def codec_consts)
  have a0: "m1 > 150 \<Longrightarrow> m2 > 150 \<Longrightarrow> snd (run s [(m1, 1800, t1), (m2, 1600, t2)]) = []"
    by (subst start_then_end) simp_all
  have a: "m1 > SIGNAL_THRESHOLD \<and> m2 > SIGNAL_THRESHOLD \<longrightarrow>
        snd (run s (readings (encodeText []) [(m1, t1), (m2, t2)])) = []"
    unfolding r using a0 by (simp add: codec_consts del: run.simps)
  have b: "snd (run (startListening now0) (readings (encodeText []) [(m1, t1), (m2, t2)])) = []"
    unfolding r by (simp add: run_two decode_def startListening_def codec_consts)
  have c: "encodeText [] = [(START_MARKER_FREQ, CHAR_DURATION), (END_MARKER_FREQ, CHAR_DURATION)]"
    by (simp add: encodeText_def)
  have d: "START_MARKER_FREQ = 1800" "END_MARKER_FREQ = 1600"
    by (simp_all add: codec_consts)
  show ?thesis using a b c d by blast
qed

theorem encode_empty_text_witness:
  "(200::nat) > SIGNAL_THRESHOLD \<and> (160::nat) > SIGNAL_THRESHOLD
   \<and> snd (run \<lparr>isReceiving = False, receivedText = [72, 73], lastFrequency = 12950, lastFrequencyTime = 100\<rparr>
          (readings (encodeText []) [(200, 300), (160, 350)])) = []"
proof -
  have h: "(200::nat) > SIGNAL_THRESHOLD \<and> (160::nat) > SIGNAL_THRESHOLD"
    by (simp add: codec_consts)
  from encode_empty_text [of 200 160
      "\<lparr>isReceiving = False, receivedText = [72, 73], lastFrequency = 12950, lastFrequencyTime = 100\<rparr>"
      300 350 0] h
  show ?thesis by blast
qed

subsection \<open>Debounce\<close>

text \<open>
  Claim C6, as amended. The receiver is receiving and has accepted a symbol before (its
  frequency and time are \<open>lastFrequency\<close> and \<open>lastFrequencyTime\<close>). A tone in the band,
  its rounded ordinal between 32 and 126, is read by \<open>N \<ge> 1\<close> ticks that all report
  the same dominant frequency, each louder than the threshold. When the tone is further
  than the tolerance from the last accepted frequency and at least one of the ticks comes
  more than \<open>0.8 * CHAR_DURATION\<close> after the last accepted time, the \<open>N\<close> ticks append
  exactly one symbol, the character of the tone, and emit nothing. Otherwise (the tone is
  the one just accepted, or every tick is too early) they append nothing and change
  nothing. In no case is more than one symbol appended.
\<close>

theorem sustained_tone_debounce:
  assumes "isReceiving s"
    and "obs \<noteq> []"
    and "\<forall>p \<in> set obs. fst p > SIGNAL_THRESHOLD"
    and "32 \<le> charCodeOf f" and "charCodeOf f \<le> 126"
  shows "(\<bar>f - lastFrequency s\<bar> > FREQUENCY_TOLERANCE \<and>
          (\<exists>p \<in> set obs. of_int (snd p - lastFrequencyTime s) > CHAR_DURATION * 1000 * (8 / 10)) \<longrightarrow>
            receivedText (fst (run s (map (\<lambda>(m, t). (m, f, t)) obs))) = receivedText s @ [frequencyToChar f]
            \<and> charCodeAt0 (frequencyToChar f) = charCodeOf f
            \<and> lastFrequency (fst (run s (map (\<lambda>(m, t). (m, f, t)) obs))) = f
            \<and> isReceiving (fst (run s (map (\<lambda>(m, t). (m, f, t)) obs)))
            \<and> snd (run s (map (\<lambda>(m, t). (m, f, t)) obs)) = [])
       \<and> (\<not> \<bar>f - lastFrequency s\<bar> > FREQUENCY_TOLERANCE \<or>
          (\<forall>p \<in> set obs. \<not> of_int (snd p - lastFrequencyTime s) > CHAR_DURATION * 1000 * (8 / 10)) \<longrightarrow>
            run s (map (\<lambda>(m, t). (m, f, t)) obs) = (s, []))"
proof (intro conjI impI)
  assume a: "\<bar>f - lastFrequency s\<bar> > FREQUENCY_TOLERANCE \<and>
          (\<exists>p \<in> set obs. of_int (snd p - lastFrequencyTime s) > CHAR_DURATION * 1000 * (8 / 10))"
  have m: "\<forall>p \<in> set obs. 150 < fst p" using assms(3) by (simp add: codec_consts)
  have fr: "40 < \<bar>f - lastFrequency s\<bar>" using a by (simp add: codec_consts)
  have lt: "\<exists>p \<in> set obs. 40 < snd p - lastFrequencyTime s"
    using a unfolding late_iff by blast
  note r = run_sustained [OF assms(1) m assms(4,5) fr lt]
  show "receivedText (fst (run s (map (\<lambda>(m, t). (m, f, t)) obs))) = receivedText s @ [frequencyToChar f]"
    unfolding r by simp
  show "lastFrequency (fst (run s (map (\<lambda>(m, t). (m, f, t)) obs))) = f"
    unfolding r by simp
  show "isReceiving (fst (run s (map (\<lambda>(m, t). (m, f, t)) obs)))"
    unfolding r using assms(1) by simp
  show "snd (run s (map (\<lambda>(m, t). (m, f, t)) obs)) = []"
    unfolding r by simp
  show "charCodeAt0 (frequencyToChar f) = charCodeOf f"
    using inband_code [OF assms(4,5)] by (simp add: charCodeAt0_def)
next
  assume "\<not> \<bar>f - lastFrequency s\<bar> > FREQUENCY_TOLERANCE \<or>
          (\<forall>p \<in> set obs. \<not> of_int (snd p - lastFrequencyTime s) > CHAR_DURATION * 1000 * (8 / 10))"
  then show "run s (map (\<lambda>(m, t). (m, f, t)) obs) = (s, [])"
  proof
    assume "\<not> \<bar>f - lastFrequency s\<bar> > FREQUENCY_TOLERANCE"
    then have "\<bar>f - lastFrequency s\<bar> \<le> 40" by (simp add: codec_consts)
    then show ?thesis by (rule run_held [OF assms(4)])
  next
    assume "\<forall>p \<in> set obs. \<not> of_int (snd p - lastFrequencyTime s) > CHAR_DURATION * 1000 * (8 / 10)"
    then have "\<forall>p \<in> set obs. \<not> 40 < snd p - lastFrequencyTime s"
      unfolding late_iff .
    then show ?thesis by (rule run_early [OF assms(4)])
  qed
qed

theorem sustained_tone_debounce_witness:
  "run \<lparr>isReceiving = True, receivedText = [72], lastFrequency = 12800, lastFrequencyTime = 50\<rparr>
       [(200, 11750, 60), (210, 11750, 80), (190, 11750, 100), (220, 11750, 120)]
   = (\<lparr>isReceiving = True, receivedText = [72, 65], lastFrequency = 11750, lastFrequencyTime = 100\<rparr>, [])
   \<and> receivedText (fst (run \<lparr>isReceiving = True, receivedText = [72], lastFrequency = 12800, lastFrequencyTime = 50\<rparr>
       [(200, 11750, 60), (210, 11750, 80), (190, 11750, 100), (220, 11750, 120)]))
     = [72] @ [frequencyToChar 11750]"
proof -
  let ?s = "\<lparr>isReceiving = True, receivedText = [72], lastFrequency = 12800, lastFrequencyTime = 50\<rparr>"
  let ?obs = "[(200, 60), (210, 80), (190, 100), (220, 120)] :: (nat \<times> int) list"
  have c: "charCodeOf 11750 = 65" by (simp add: charCodeOf_def codec_consts)
  have h: "isReceiving ?s" "?obs \<noteq> []" "\<forall>p \<in> set ?obs. fst p > SIGNAL_THRESHOLD"
    "32 \<le> charCodeOf 11750" "charCodeOf 11750 \<le> 126"
    by (simp_all add: c codec_consts)
  have g: "\<bar>11750 - lastFrequency ?s\<bar> > FREQUENCY_TOLERANCE \<and>
          (\<exists>p \<in> set ?obs. of_int (snd p - lastFrequencyTime ?s) > CHAR_DURATION * 1000 * (8 / 10))"
    by (simp add: codec_consts)
  from sustained_tone_debounce [OF h] g
  have 1: "receivedText (fst (run ?s (map (\<lambda>(m, t). (m, 11750, t)) ?obs)))
     = receivedText ?s @ [frequencyToChar 11750]"
    by blast
  have 2: "run ?s (map (\<lambda>(m, t). (m, 11750, t)) ?obs)
     = (\<lparr>isReceiving = True, receivedText = [72, 65], lastFrequency = 11750, lastFrequencyTime = 100\<rparr>, [])"
    by (simp add: decode_def codec_consts frequencyToChar_def c fromCharCode_def charCodeAt0_def)
  have 3: "map (\<lambda>(m, t). (m, 11750, t)) ?obs =
      ([(200, 11750, 60), (210, 11750, 80), (190, 11750, 100), (220, 11750, 120)] :: tick list)"
    by simp
  from 1 2 show ?thesis unfolding 3 by simp
qed

text \<open>
  The claim as written has exactly one symbol appended for every such tone. Three ticks of
  the tone of A, 50 ms apart, after A was just accepted append nothing; so do three ticks
  of the tone of H that all come within 40 ms of that acceptance.
\<close>

theorem sustained_tone_zero_counterexample:
  "isReceiving \<lparr>isReceiving = True, receivedText = [65], lastFrequency = 11750, lastFrequencyTime = 50\<rparr>
   \<and> charCodeOf 11750 = 65
   \<and> run \<lparr>isReceiving = True, receivedText = [65], lastFrequency = 11750, lastFrequencyTime = 50\<rparr>
       [(200, 11750, 100), (200, 11750, 150), (200, 11750, 200)]
     = (\<lparr>isReceiving = True, receivedText = [65], lastFrequency = 11750, lastFrequencyTime = 50\<rparr>, [])
   \<and> charCodeOf 12800 = 72
   \<and> run \<lparr>isReceiving = True, receivedText = [65], lastFrequency = 11750, lastFrequencyTime = 50\<rparr>
       [(200, 12800, 60), (200, 12800, 75), (200, 12800, 90)]
     = (\<lparr>isReceiving = True, receivedText = [65], lastFrequency = 11750, lastFrequencyTime = 50\<rparr>, [])"
proof -
  have c: "charCodeOf 11750 = 65" "charCodeOf 12800 = 72" by (simp_all add: charCodeOf_def codec_consts)
  show ?thesis by (simp add: c decode_def codec_consts)
qed

subsection \<open>Ignored ticks\<close>

text \<open>
  Claim C7, as amended. A tick whose magnitude is at most the threshold leaves every
  field of the state unchanged and emits nothing. So does a tick, in the receiving state
  or not, whose dominant frequency is at least 0 and below 9837125 Hz, is within the
  tolerance of neither marker, and whose rounded ordinal lies outside 32..126.
\<close>

theorem ignored_ticks_change_nothing:
  "(maxValue \<le> SIGNAL_THRESHOLD \<longrightarrow> decode maxValue f now s = (s, None))
   \<and> (0 \<le> f \<and> f < 9837125
        \<and> \<not> \<bar>f - START_MARKER_FREQ\<bar> < FREQUENCY_TOLERANCE
        \<and> \<not> \<bar>f - END_MARKER_FREQ\<bar> < FREQUENCY_TOLERANCE
        \<and> (charCodeOf f < 32 \<or> 126 < charCodeOf f)
      \<longrightarrow> decode maxValue f now s = (s, None))"
proof (intro conjI impI)
  assume "maxValue \<le> SIGNAL_THRESHOLD"
  then show "decode maxValue f now s = (s, None)" by (simp add: decode_def)
next
  assume a: "0 \<le> f \<and> f < 9837125
        \<and> \<not> \<bar>f - START_MARKER_FREQ\<bar> < FREQUENCY_TOLERANCE
        \<and> \<not> \<bar>f - END_MARKER_FREQ\<bar> < FREQUENCY_TOLERANCE
        \<and> (charCodeOf f < 32 \<or> 126 < charCodeOf f)"
  then have b: "-13 \<le> charCodeOf f" "charCodeOf f \<le> 65567"
    using charCodeOf_bounds [of f] by simp_all
  have "\<not> (32 \<le> charCodeOf f mod 65536 \<and> charCodeOf f mod 65536 \<le> 126)"
    unfolding wrap_range(1) [OF b] using a by linarith
  then have n: "(32 \<le> charCodeAt0 (frequencyToChar f) \<and> charCodeAt0 (frequencyToChar f) \<le> 126) = False"
    by (simp add: charCodeAt0_def uint_frequencyToChar)
  from a have m: "\<not> \<bar>f - START_MARKER_FREQ\<bar> < FREQUENCY_TOLERANCE"
    "\<not> \<bar>f - END_MARKER_FREQ\<bar> < FREQUENCY_TOLERANCE" by simp_all
  show "decode maxValue f now s = (s, None)"
    by (simp add: decode_def Let_def n m)
qed

theorem ignored_ticks_change_nothing_witness:
  "decode 150 11750 100
      \<lparr>isReceiving = True, receivedText = [72], lastFrequency = 12800, lastFrequencyTime = 50\<rparr>
    = (\<lparr>isReceiving = True, receivedText = [72], lastFrequency = 12800, lastFrequencyTime = 50\<rparr>, None)
   \<and> charCodeOf 500 = -10
   \<and> decode 200 500 100
      \<lparr>isReceiving = True, receivedText = [72], lastFrequency = 12800, lastFrequencyTime = 50\<rparr>
    = (\<lparr>isReceiving = True, receivedText = [72], lastFrequency = 12800, lastFrequencyTime = 50\<rparr>, None)"
proof -
  let ?s = "\<lparr>isReceiving = True, receivedText = [72], lastFrequency = 12800, lastFrequencyTime = 50\<rparr>"
  have c: "charCodeOf 500 = -10" by (simp add: charCodeOf_def codec_consts)
  have h1: "(150::nat) \<le> SIGNAL_THRESHOLD" by (simp add: codec_consts)
  have h2: "(0::rat) \<le> 500 \<and> (500::rat) < 9837125
        \<and> \<not> \<bar>500 - START_MARKER_FREQ\<bar> < FREQUENCY_TOLERANCE
        \<and> \<not> \<bar>500 - END_MARKER_FREQ\<bar> < FREQUENCY_TOLERANCE
        \<and> (charCodeOf 500 < 32 \<or> 126 < charCodeOf 500)"
    by (simp add: c codec_consts)
  from ignored_ticks_change_nothing [of 150 11750 100 ?s] h1
  have 1: "decode 150 11750 100 ?s = (?s, None)" by blast
  from ignored_ticks_change_nothing [of 200 500 100 ?s] h2
  have 2: "decode 200 500 100 ?s = (?s, None)" by blast
  from 1 2 c show ?thesis by blast
qed

text \<open>
  The claim as written has no condition on the markers: the rounded ordinal of the end
  marker, -3, is outside 32..126, and an end marker tick in the receiving state sets the
  receiver idle and emits the buffer.
\<close>

theorem marker_tick_counterexample:
  "(200::nat) > SIGNAL_THRESHOLD \<and> charCodeOf 1600 = -3 \<and> \<not> (32 \<le> charCodeOf 1600 \<and> charCodeOf 1600 \<le> 126)
   \<and> decode 200 1600 100
       \<lparr>isReceiving = True, receivedText = [72], lastFrequency = 12800, lastFrequencyTime = 50\<rparr>
     = (\<lparr>isReceiving = False, receivedText = [72], lastFrequency = 12800, lastFrequencyTime = 50\<rparr>, Some [72])"
proof -
  have "charCodeOf 1600 \<le> -3" "-3 \<le> charCodeOf 1600"
    unfolding charCodeOf_ge_iff charCodeOf_le_iff by simp_all
  then have c: "charCodeOf 1600 = -3" by linarith
  show ?thesis by (simp add: c decode_def codec_consts)
qed

subsection \<open>Acceptance and the 16-bit character code\<close>

text \<open>
  Claim C9. Let \<open>f\<close> be a dominant frequency that \<open>analyze\<close> computes: the peak index
  of a spectrum of at most 2048 bins times the sample rate over 4096, for a sample rate
  below 19674250 Hz. Then \<open>f\<close> is not negative, and the acceptance test on the
  character built by \<open>String.fromCharCode\<close> (the rounded ordinal modulo \<open>2 ^ 16\<close>)
  holds exactly when the rounded ordinal itself lies in 32..126; a tick that reaches the
  test is appended exactly then. The rounded ordinal is at least -13, a negative one wraps
  to a code of at least 65523, and neither a frequency within the tolerance of a marker
  nor the marker frequencies 1800 Hz and 1600 Hz themselves pass the test.
\<close>

theorem symbol_acceptance_on_analyser:
  assumes "0 \<le> sampleRate" and "sampleRate < 19674250"
    and "length dataArray \<le> 2048"
    and "f = dominantFrequencyOf sampleRate dataArray"
  shows "0 \<le> f
       \<and> ((32 \<le> charCodeAt0 (frequencyToChar f) \<and> charCodeAt0 (frequencyToChar f) \<le> 126)
            \<longleftrightarrow> (32 \<le> charCodeOf f \<and> charCodeOf f \<le> 126))
       \<and> charCodeAt0 (frequencyToChar f) = charCodeOf f mod 2 ^ 16
       \<and> -13 \<le> charCodeOf f
       \<and> (charCodeOf f < 0 \<longrightarrow> 65523 \<le> charCodeAt0 (frequencyToChar f))
       \<and> (\<bar>f - START_MARKER_FREQ\<bar> < FREQUENCY_TOLERANCE \<or> \<bar>f - END_MARKER_FREQ\<bar> < FREQUENCY_TOLERANCE
            \<longrightarrow> \<not> (32 \<le> charCodeAt0 (frequencyToChar f) \<and> charCodeAt0 (frequencyToChar f) \<le> 126))
       \<and> \<not> (32 \<le> charCodeAt0 (frequencyToChar START_MARKER_FREQ)
              \<and> charCodeAt0 (frequencyToChar START_MARKER_FREQ) \<le> 126)
       \<and> \<not> (32 \<le> charCodeAt0 (frequencyToChar END_MARKER_FREQ)
              \<and> charCodeAt0 (frequencyToChar END_MARKER_FREQ) \<le> 126)
       \<and> (maxValue > SIGNAL_THRESHOLD \<and> isReceiving s
            \<and> \<not> \<bar>f - START_MARKER_FREQ\<bar> < FREQUENCY_TOLERANCE
            \<and> \<not> \<bar>f - END_MARKER_FREQ\<bar> < FREQUENCY_TOLERANCE
            \<and> \<bar>f - lastFrequency s\<bar> > FREQUENCY_TOLERANCE
            \<and> of_int (now - lastFrequencyTime s) > CHAR_DURATION * 1000 * (8 / 10)
            \<longrightarrow> decode maxValue f now s =
                  (if 32 \<le> charCodeOf f \<and> charCodeOf f \<le> 126
                   then (s\<lparr>receivedText := receivedText s @ [frequencyToChar f],
                            lastFrequency := f, lastFrequencyTime := now\<rparr>, None)
                   else (s, None)))"
proof -
  have f0: "0 \<le> f" unfolding assms(4) by (rule dominantFrequencyOf_range(1) [OF assms(1,3)])
  have "f \<le> sampleRate / 2" unfolding assms(4) by (rule dominantFrequencyOf_range(2) [OF assms(1,3)])
  then have f1: "f < 9837125" using assms(2) by linarith
  note a = acceptance_below_wrap [OF f0 f1]
  have 3: "\<bar>f - START_MARKER_FREQ\<bar> < FREQUENCY_TOLERANCE \<or> \<bar>f - END_MARKER_FREQ\<bar> < FREQUENCY_TOLERANCE
            \<longrightarrow> \<not> (32 \<le> charCodeAt0 (frequencyToChar f) \<and> charCodeAt0 (frequencyToChar f) \<le> 126)"
    using marker_rejected [of f] by (auto simp add: codec_consts)
  have 4: "\<not> (32 \<le> charCodeAt0 (frequencyToChar START_MARKER_FREQ)
              \<and> charCodeAt0 (frequencyToChar START_MARKER_FREQ) \<le> 126)"
    unfolding START_MARKER_FREQ_def by (rule marker_rejected) simp
  have 5: "\<not> (32 \<le> charCodeAt0 (frequencyToChar END_MARKER_FREQ)
              \<and> charCodeAt0 (frequencyToChar END_MARKER_FREQ) \<le> 126)"
    unfolding END_MARKER_FREQ_def by (rule marker_rejected) simp
  have 6: "maxValue > SIGNAL_THRESHOLD \<and> isReceiving s
            \<and> \<not> \<bar>f - START_MARKER_FREQ\<bar> < FREQUENCY_TOLERANCE
            \<and> \<not> \<bar>f - END_MARKER_FREQ\<bar> < FREQUENCY_TOLERANCE
            \<and> \<bar>f - lastFrequency s\<bar> > FREQUENCY_TOLERANCE
            \<and> of_int (now - lastFrequencyTime s) > CHAR_DURATION * 1000 * (8 / 10)
            \<longrightarrow> decode maxValue f now s =
                  (if 32 \<le> charCodeOf f \<and> charCodeOf f \<le> 126
                   then (s\<lparr>receivedText := receivedText s @ [frequencyToChar f],
                            lastFrequency := f, lastFrequencyTime := now\<rparr>, None)
                   else (s, None))"
    using a(1) by (simp add: decode_def Let_def)
  from f0 a 3 4 5 6 show ?thesis by blast
qed

theorem symbol_acceptance_on_analyser_witness:
  "dominantFrequencyOf 48000 (replicate 1003 0 @ [200]) = 1003 * 48000 / 4096
   \<and> charCodeOf (1003 * 48000 / 4096) = 65
   \<and> charCodeAt0 (frequencyToChar (1003 * 48000 / 4096)) = 65
   \<and> analyze 48000 (replicate 1003 0 @ [200]) 100
        \<lparr>isReceiving = True, receivedText = [72], lastFrequency = 12800, lastFrequencyTime = 50\<rparr>
      = (\<lparr>isReceiving = True, receivedText = [72, 65], lastFrequency = 1003 * 48000 / 4096,
           lastFrequencyTime = 100\<rparr>, None)"
proof -
  let ?s = "\<lparr>isReceiving = True, receivedText = [72], lastFrequency = 12800, lastFrequencyTime = 50\<rparr>"
  let ?d = "replicate 1003 0 @ [200] :: 8 word list"
  let ?f = "1003 * 48000 / 4096 :: rat"
  have p: "peak_loop ?d 0 (0, 0) = (200, 1003)"
    by (simp add: peak_loop_leading_zeros)
  have df: "dominantFrequencyOf 48000 ?d = ?f"
    by (simp add: dominantFrequencyOf_def p fftSize_def)
  have "65 \<le> charCodeOf ?f" "charCodeOf ?f \<le> 65"
    unfolding charCodeOf_ge_iff charCodeOf_le_iff by simp_all
  then have c: "charCodeOf ?f = 65" by linarith
  have e: "frequencyToChar ?f = 65" by (simp only: frequencyToChar_def c fromCharCode_def Let_def) simp
  have h: "(0::rat) \<le> 48000" "(48000::rat) < 19674250" "length ?d \<le> 2048" by simp_all
  have g: "(200::nat) > SIGNAL_THRESHOLD \<and> isReceiving ?s
            \<and> \<not> \<bar>?f - START_MARKER_FREQ\<bar> < FREQUENCY_TOLERANCE
            \<and> \<not> \<bar>?f - END_MARKER_FREQ\<bar> < FREQUENCY_TOLERANCE
            \<and> \<bar>?f - lastFrequency ?s\<bar> > FREQUENCY_TOLERANCE
            \<and> of_int (100 - lastFrequencyTime ?s) > CHAR_DURATION * 1000 * (8 / 10)"
    by (simp add: codec_consts)
  from symbol_acceptance_on_analyser [OF h df [symmetric], of 200 ?s 100] g
  have d: "decode 200 ?f 100 ?s =
                  (if 32 \<le> charCodeOf ?f \<and> charCodeOf ?f \<le> 126
                   then (?s\<lparr>receivedText := receivedText ?s @ [frequencyToChar ?f],
                            lastFrequency := ?f, lastFrequencyTime := 100\<rparr>, None)
                   else (?s, None))"
    by blast
  have an: "analyze 48000 ?d 100 ?s = decode 200 ?f 100 ?s"
    by (simp only: analyze_dominant p df fst_conv)
  have r: "analyze 48000 ?d 100 ?s =
      (\<lparr>isReceiving = True, receivedText = [72, 65], lastFrequency = ?f, lastFrequencyTime = 100\<rparr>, None)"
    unfolding an d by (simp only: c e) simp
  have ca: "charCodeAt0 (frequencyToChar ?f) = 65" by (simp only: e) (simp add: charCodeAt0_def)
  from df c ca r show ?thesis by blast
qed

end
